theory Spec2Isabelle
  imports Main "HOL-Library.AList" "HOL-Library.Multiset"
begin

section \<open>The container of package alice (container.go)\<close>

subsection \<open>Values, types and panics\<close>

text \<open>
  A Go \<^verbatim>\<open>interface{}\<close> value is either the nil interface or a value that carries its
  dynamic type together with the object itself (here a reference number, so that two
  objects of one type can be told apart).  \<^verbatim>\<open>reflect.TypeOf\<close> returns the nil
  \<^verbatim>\<open>reflect.Type\<close> for the nil interface.  Type descriptors are the elements of the
  type variable \<open>'t\<close>; a \<^verbatim>\<open>reflect.Type\<close> handed to the container is a proper (non-nil)
  descriptor throughout.
\<close>

datatype 't iface = NilValue | Value (dynType: 't) (ref: nat)

fun TypeOf :: "'t iface \<Rightarrow> 't option" where
  "TypeOf NilValue = None"
| "TypeOf (Value ty r) = Some ty"

text \<open>
  Every failure of the source is a panic.  The panics of container.go are told apart by
  their message; the runtime and the reflect library add two more.
  \<^item> \<open>InstanceNotFoundError (ByName n)\<close>: \<^verbatim>\<open>instance name %s is not defined\<close>;
  \<^item> \<open>InstanceNotFoundError (ByType t)\<close>: \<^verbatim>\<open>instance type %s is not defined\<close>;
  \<^item> \<open>AmbiguousInstanceError t\<close>: \<^verbatim>\<open>instance type %s has more than one instances defined\<close>;
  \<^item> \<open>NilPointerDereference\<close>: the runtime error of a method call on a nil
    \<^verbatim>\<open>reflect.Type\<close>;
  \<^item> \<open>ReflectSetPanic\<close>: the panic of \<^verbatim>\<open>reflect.Value.Set\<close> on a zero Value or on a value
    that is not assignable to the field;
  \<^item> \<open>ModuleDescriptionError\<close>, \<open>NameCollisionError\<close>, \<open>CyclicDependencyError\<close>: the
    errors returned by \<^verbatim>\<open>reflectModule\<close>, \<^verbatim>\<open>createGraph\<close> and
    \<^verbatim>\<open>instantiationOrder\<close>, which \<^verbatim>\<open>populate\<close> turns into panics.
\<close>

datatype 't key = ByName string | ByType 't

datatype 't error =
    ModuleDescriptionError string
  | NameCollisionError string
  | CyclicDependencyError
  | InstanceNotFoundError "'t key"
  | AmbiguousInstanceError 't
  | NilPointerDereference
  | ReflectSetPanic

subsection \<open>The container\<close>

text \<open>
  The struct \<^verbatim>\<open>container\<close>.  A Go map is an association list with distinct keys, looked
  up with \<open>map_of\<close> and written with \<open>AList.update\<close>, which replaces the binding of a
  key that is present and adds a new key at the end.  \<^verbatim>\<open>range\<close> over a Go map visits
  the entries in an unspecified order; here it visits them in the order of the list,
  and \<open>findInstanceByType_order\<close> below shows that the order does not matter.
\<close>

record ('m, 't) container =
  modules :: "'m list"
  instanceByName :: "(string \<times> 't iface) list"
  instanceByType :: "('t \<times> 't iface list) list"

text \<open>
  \<^verbatim>\<open>findAssignableInstances\<close>: the loop over \<^verbatim>\<open>c.instanceByName\<close>.  The parameter
  \<open>asg\<close> is \<^verbatim>\<open>reflect.Type.AssignableTo\<close>: \<open>asg u t\<close> holds when a value of type \<open>u\<close> is
  assignable to type \<open>t\<close>.  \<^verbatim>\<open>instanceType.AssignableTo(t)\<close> on the nil type of a nil
  instance is a nil dereference, which ends the loop with a panic.
\<close>

fun assignableLoop :: "('t \<Rightarrow> 't \<Rightarrow> bool) \<Rightarrow> 't \<Rightarrow> 't iface list \<Rightarrow> 't iface list \<Rightarrow>
    't error + 't iface list" where
  "assignableLoop asg t instances [] = Inr instances"
| "assignableLoop asg t instances (i # rest) =
     (case TypeOf i of
        None \<Rightarrow> Inl NilPointerDereference
      | Some instanceType \<Rightarrow>
          assignableLoop asg t (if asg instanceType t then instances @ [i] else instances) rest)"

definition findAssignableInstances ::
    "('t \<Rightarrow> 't \<Rightarrow> bool) \<Rightarrow> ('m, 't) container \<Rightarrow> 't \<Rightarrow> 't error + 't iface list" where
  "findAssignableInstances asg c t = assignableLoop asg t [] (map snd (instanceByName c))"

text \<open>The two checks on the length of the candidates at the end of \<^verbatim>\<open>findInstanceByType\<close>.\<close>

definition exactlyOne :: "'t \<Rightarrow> 't iface list \<Rightarrow> 't error + 't iface" where
  "exactlyOne t instances =
     (if length instances = 0 then Inl (InstanceNotFoundError (ByType t))
      else if length instances > 1 then Inl (AmbiguousInstanceError t)
      else Inr (instances ! 0))"

definition findInstanceByType ::
    "('t \<Rightarrow> 't \<Rightarrow> bool) \<Rightarrow> ('m, 't) container \<Rightarrow> 't \<Rightarrow> 't error + 't iface" where
  "findInstanceByType asg c t =
     (case map_of (instanceByType c) t of
        Some instances \<Rightarrow> exactlyOne t instances
      | None \<Rightarrow>
          (case findAssignableInstances asg c t of
             Inl e \<Rightarrow> Inl e
           | Inr instances \<Rightarrow> exactlyOne t instances))"

definition findInstanceByName :: "('m, 't) container \<Rightarrow> string \<Rightarrow> 't error + 't iface" where
  "findInstanceByName c name =
     (case map_of (instanceByName c) name of
        None \<Rightarrow> Inl (InstanceNotFoundError (ByName name))
      | Some i \<Rightarrow> Inr i)"

subsection \<open>Module descriptors\<close>

text \<open>
  The types \<^verbatim>\<open>reflectedModule\<close>, \<^verbatim>\<open>namedField\<close>, \<^verbatim>\<open>typedField\<close> and
  \<^verbatim>\<open>instanceMethod\<close> are declared outside container.go; the fields below are the ones
  container.go reads.  A dependency field (\<^verbatim>\<open>dep.field\<close>, a settable
  \<^verbatim>\<open>reflect.Value\<close>) is given by the static type of the struct field.  A factory
  (\<^verbatim>\<open>instanceMethod.method\<close>) is code of the module: it is called with no arguments
  and reads the module, so it is a function of the values that the dependency fields of
  its module hold when it is called.
\<close>

record 't namedField =
  nfName :: string
  nfField :: 't

record 't typedField =
  tfTp :: 't
  tfField :: 't

record 't instanceMethod =
  imName :: string
  imTp :: 't
  imMethod :: "'t iface list \<Rightarrow> 't iface"

record 't reflectedModule =
  namedDepends :: "'t namedField list"
  typedDepends :: "'t typedField list"
  instances :: "'t instanceMethod list"

text \<open>
  What the container does to the modules, in order: a dependency field is set to a
  value, a factory is called and returns a value.
\<close>

datatype 't event =
    SetNamed "'t namedField" "'t iface"
  | SetTyped "'t typedField" "'t iface"
  | Call "'t instanceMethod" "'t iface"

text \<open>The factories called in a sequence of events, each with what it returned.\<close>

fun calls :: "'t event list \<Rightarrow> ('t instanceMethod \<times> 't iface) list" where
  "calls [] = []"
| "calls (Call im i # evs) = (im, i) # calls evs"
| "calls (SetNamed dep i # evs) = calls evs"
| "calls (SetTyped dep i # evs) = calls evs"

text \<open>
  \<^verbatim>\<open>dep.field.Set(reflect.ValueOf(instance))\<close>: \<^verbatim>\<open>reflect.ValueOf\<close> of the nil interface
  is the zero Value, on which \<^verbatim>\<open>Set\<close> panics; so it does on a value whose type is not
  assignable to the type of the field.
\<close>

definition fieldSet :: "('t \<Rightarrow> 't \<Rightarrow> bool) \<Rightarrow> 't \<Rightarrow> 't iface \<Rightarrow> 't error + unit" where
  "fieldSet asg fieldType i =
     (case TypeOf i of
        None \<Rightarrow> Inl ReflectSetPanic
      | Some ty \<Rightarrow> if asg ty fieldType then Inr () else Inl ReflectSetPanic)"

subsection \<open>instantiateModule\<close>

text \<open>
  Each loop returns the events it caused, also when it panics.  The two loops over the
  dependencies return the values they have set.
\<close>

fun injectNamed :: "('t \<Rightarrow> 't \<Rightarrow> bool) \<Rightarrow> ('m, 't) container \<Rightarrow> 't namedField list \<Rightarrow>
    't event list \<times> ('t error + 't iface list)" where
  "injectNamed asg c [] = ([], Inr [])"
| "injectNamed asg c (dep # deps) =
     (case findInstanceByName c (nfName dep) of
        Inl e \<Rightarrow> ([], Inl e)
      | Inr i \<Rightarrow>
          (case fieldSet asg (nfField dep) i of
             Inl e \<Rightarrow> ([], Inl e)
           | Inr _ \<Rightarrow>
               (case injectNamed asg c deps of
                  (log, Inl e) \<Rightarrow> (SetNamed dep i # log, Inl e)
                | (log, Inr vs) \<Rightarrow> (SetNamed dep i # log, Inr (i # vs)))))"

fun injectTyped :: "('t \<Rightarrow> 't \<Rightarrow> bool) \<Rightarrow> ('m, 't) container \<Rightarrow> 't typedField list \<Rightarrow>
    't event list \<times> ('t error + 't iface list)" where
  "injectTyped asg c [] = ([], Inr [])"
| "injectTyped asg c (dep # deps) =
     (case findInstanceByType asg c (tfTp dep) of
        Inl e \<Rightarrow> ([], Inl e)
      | Inr i \<Rightarrow>
          (case fieldSet asg (tfField dep) i of
             Inl e \<Rightarrow> ([], Inl e)
           | Inr _ \<Rightarrow>
               (case injectTyped asg c deps of
                  (log, Inl e) \<Rightarrow> (SetTyped dep i # log, Inl e)
                | (log, Inr vs) \<Rightarrow> (SetTyped dep i # log, Inr (i # vs)))))"

text \<open>The body of the loop over \<^verbatim>\<open>rm.instances\<close>, after the call of the factory.\<close>

definition registerInstance ::
    "('m, 't) container \<Rightarrow> 't instanceMethod \<Rightarrow> 't iface \<Rightarrow> ('m, 't) container" where
  "registerInstance c instanceMethod i =
     (let typedInstances = (case map_of (instanceByType c) (imTp instanceMethod) of
                              None \<Rightarrow> [] | Some xs \<Rightarrow> xs)
      in c\<lparr>instanceByName := AList.update (imName instanceMethod) i (instanceByName c),
           instanceByType :=
             AList.update (imTp instanceMethod) (typedInstances @ [i]) (instanceByType c)\<rparr>)"

fun callInstances :: "'t iface list \<Rightarrow> ('m, 't) container \<Rightarrow> 't instanceMethod list \<Rightarrow>
    't event list \<times> ('m, 't) container" where
  "callInstances held c [] = ([], c)"
| "callInstances held c (instanceMethod # rest) =
     (case callInstances held
             (registerInstance c instanceMethod (imMethod instanceMethod held)) rest of
        (log, c') \<Rightarrow> (Call instanceMethod (imMethod instanceMethod held) # log, c'))"

definition instantiateModule ::
    "('t \<Rightarrow> 't \<Rightarrow> bool) \<Rightarrow> ('m, 't) container \<Rightarrow> 't reflectedModule \<Rightarrow>
     't event list \<times> ('t error + ('m, 't) container)" where
  "instantiateModule asg c rm =
     (case injectNamed asg c (namedDepends rm) of
        (log1, Inl e) \<Rightarrow> (log1, Inl e)
      | (log1, Inr named) \<Rightarrow>
          (case injectTyped asg c (typedDepends rm) of
             (log2, Inl e) \<Rightarrow> (log1 @ log2, Inl e)
           | (log2, Inr typed) \<Rightarrow>
               (case callInstances (named @ typed) c (instances rm) of
                  (log3, c') \<Rightarrow> (log1 @ log2 @ log3, Inr c'))))"

subsection \<open>populate and CreateContainer\<close>

text \<open>The loop of \<^verbatim>\<open>populate\<close> over the ordered modules; a panic ends it.\<close>

fun instantiateModules ::
    "('t \<Rightarrow> 't \<Rightarrow> bool) \<Rightarrow> ('m, 't) container \<Rightarrow> 't reflectedModule list \<Rightarrow>
     't event list \<times> ('t error + ('m, 't) container)" where
  "instantiateModules asg c [] = ([], Inr c)"
| "instantiateModules asg c (rm # rest) =
     (case instantiateModule asg c rm of
        (log, Inl e) \<Rightarrow> (log, Inl e)
      | (log, Inr c') \<Rightarrow>
          (case instantiateModules asg c' rest of (log', r) \<Rightarrow> (log @ log', r)))"

text \<open>
  \<^verbatim>\<open>reflectModules\<close>.  The function \<^verbatim>\<open>reflectModule\<close> is declared outside container.go
  and is a parameter here.  The loop ranges over \<^verbatim>\<open>c.modules\<close>, not over the argument.
\<close>

fun reflectLoop :: "('m \<Rightarrow> 't error + 't reflectedModule) \<Rightarrow> 'm list \<Rightarrow>
    't error + 't reflectedModule list" where
  "reflectLoop reflectModule [] = Inr []"
| "reflectLoop reflectModule (m # ms) =
     (case reflectModule m of
        Inl err \<Rightarrow> Inl err
      | Inr rm \<Rightarrow>
          (case reflectLoop reflectModule ms of
             Inl err \<Rightarrow> Inl err
           | Inr rms \<Rightarrow> Inr (rm # rms)))"

definition reflectModules :: "('m \<Rightarrow> 't error + 't reflectedModule) \<Rightarrow> ('m, 't) container \<Rightarrow>
    'm list \<Rightarrow> 't error + 't reflectedModule list" where
  "reflectModules reflectModule c ms = reflectLoop reflectModule (modules c)"

subsection \<open>The dependency graph and the instantiation order\<close>

text \<open>
  Modelled from the spec: \<^verbatim>\<open>createGraph\<close> is declared outside container.go.  The nodes
  of the graph are the modules, by their position in the input.  A factory name that is
  declared twice is fatal at construction (the name of a factory "must be globally
  unique"; two factories with the same name make \<^verbatim>\<open>CreateContainer\<close> fail with a name
  collision).  For every dependency slot of every module there is an edge from the
  dependent module to each module that has a factory which could satisfy the slot: by
  exact name for a named slot; by exact declared type first, else by assignable
  declared type, for a typed slot.  A slot that no module satisfies adds no edge and is
  no error here.  The definitions from \<open>graph\<close> to \<open>createGraph\<close> are this model.
\<close>

record 't graph =
  graphModules :: "'t reflectedModule list"
  graphEdges :: "(nat \<times> nat) list"

definition factoryNames :: "'t reflectedModule list \<Rightarrow> string list" where
  "factoryNames rms = concat (map (\<lambda>rm. map imName (instances rm)) rms)"

fun firstDuplicate :: "string list \<Rightarrow> string option" where
  "firstDuplicate [] = None"
| "firstDuplicate (n # ns) = (if n \<in> set ns then Some n else firstDuplicate ns)"

definition providesName :: "'t reflectedModule \<Rightarrow> string \<Rightarrow> bool" where
  "providesName rm n = (n \<in> set (map imName (instances rm)))"

definition providesExact :: "'t reflectedModule \<Rightarrow> 't \<Rightarrow> bool" where
  "providesExact rm t = (t \<in> set (map imTp (instances rm)))"

definition providesAssignable :: "('t \<Rightarrow> 't \<Rightarrow> bool) \<Rightarrow> 't reflectedModule \<Rightarrow> 't \<Rightarrow> bool" where
  "providesAssignable asg rm t = (filter (\<lambda>u. asg u t) (map imTp (instances rm)) \<noteq> [])"

definition typedCandidates ::
    "('t \<Rightarrow> 't \<Rightarrow> bool) \<Rightarrow> 't reflectedModule list \<Rightarrow> 't \<Rightarrow> nat list" where
  "typedCandidates asg rms t =
     (let exact = filter (\<lambda>j. providesExact (rms ! j) t) [0..<length rms]
      in if exact \<noteq> [] then exact
         else filter (\<lambda>j. providesAssignable asg (rms ! j) t) [0..<length rms])"

definition dependsOn ::
    "('t \<Rightarrow> 't \<Rightarrow> bool) \<Rightarrow> 't reflectedModule list \<Rightarrow> nat \<Rightarrow> nat \<Rightarrow> bool" where
  "dependsOn asg rms a b =
     (filter (\<lambda>dep. providesName (rms ! b) (nfName dep)) (namedDepends (rms ! a)) \<noteq> [] \<or>
      filter (\<lambda>dep. b \<in> set (typedCandidates asg rms (tfTp dep))) (typedDepends (rms ! a)) \<noteq> [])"

definition createGraph ::
    "('t \<Rightarrow> 't \<Rightarrow> bool) \<Rightarrow> 't reflectedModule list \<Rightarrow> 't error + 't graph" where
  "createGraph asg rms =
     (case firstDuplicate (factoryNames rms) of
        Some n \<Rightarrow> Inl (NameCollisionError n)
      | None \<Rightarrow>
          Inr \<lparr>graphModules = rms,
               graphEdges = concat (map (\<lambda>a. map (\<lambda>b. (a, b))
                  (filter (dependsOn asg rms a) [0..<length rms])) [0..<length rms])\<rparr>)"

text \<open>
  Modelled from the spec: \<^verbatim>\<open>instantiationOrder\<close> is declared outside container.go.  A
  Kahn-style topological sort: the next module is the first one, in input order, all of
  whose providers are placed; when modules remain and none of them is ready there is no
  total order, and the result is the \<open>CyclicDependencyError\<close>.  The definitions \<open>ready\<close>,
  \<open>schedule\<close> and \<open>instantiationOrder\<close> are this model.
\<close>

definition ready :: "(nat \<times> nat) list \<Rightarrow> nat list \<Rightarrow> nat \<Rightarrow> bool" where
  "ready es placed a = (set (map snd (filter (\<lambda>e. fst e = a) es)) \<subseteq> set placed)"

function schedule :: "(nat \<times> nat) list \<Rightarrow> nat list \<Rightarrow> nat list \<Rightarrow> 't error + nat list" where
  "schedule es placed remaining =
     (if remaining = [] then Inr placed
      else (case find (ready es placed) remaining of
              None \<Rightarrow> Inl CyclicDependencyError
            | Some a \<Rightarrow> schedule es (placed @ [a]) (remove1 a remaining)))"
  by pat_completeness auto
termination
proof (relation "measure (\<lambda>(es, placed, remaining). length remaining)")
  show "wf (measure (\<lambda>(es, placed, remaining). length remaining))"
    by simp
next
  fix es :: "(nat \<times> nat) list" and placed remaining :: "nat list" and a :: nat
  assume "remaining \<noteq> []" and f: "find (ready es placed) remaining = Some a"
  from f have "a \<in> set remaining"
    by (auto simp: find_Some_iff)
  then have "length (remove1 a remaining) < length remaining"
    using length_pos_if_in_set [of a remaining] by (simp add: length_remove1)
  then show "((es, placed @ [a], remove1 a remaining), (es, placed, remaining))
      \<in> measure (\<lambda>(es, placed, remaining). length remaining)"
    by simp
qed

declare schedule.simps [simp del]

definition instantiationOrder :: "'t graph \<Rightarrow> 't error + 't reflectedModule list" where
  "instantiationOrder g =
     (case schedule (graphEdges g) [] [0..<length (graphModules g)] of
        Inl err \<Rightarrow> Inl err
      | Inr order \<Rightarrow> Inr (map (\<lambda>a. graphModules g ! a) order))"


text \<open>
  \<^verbatim>\<open>populate\<close> and \<^verbatim>\<open>CreateContainer\<close>.  A panic of \<^verbatim>\<open>populate\<close> leaves the caller
  without a container; the events that happened before it have happened.
\<close>

definition populate ::
    "('m \<Rightarrow> 't error + 't reflectedModule) \<Rightarrow> ('t \<Rightarrow> 't \<Rightarrow> bool) \<Rightarrow> ('m, 't) container \<Rightarrow>
     't event list \<times> ('t error + ('m, 't) container)" where
  "populate reflectModule asg c =
     (case reflectModules reflectModule c (modules c) of
        Inl err \<Rightarrow> ([], Inl err)
      | Inr rms \<Rightarrow>
          (case createGraph asg rms of
             Inl err \<Rightarrow> ([], Inl err)
           | Inr g \<Rightarrow>
               (case instantiationOrder g of
                  Inl err \<Rightarrow> ([], Inl err)
                | Inr orderedRms \<Rightarrow>
                    instantiateModules asg
                      (c\<lparr>instanceByName := [], instanceByType := []\<rparr>) orderedRms)))"

text \<open>
  The methods of the interface \<^verbatim>\<open>Container\<close>.  They take the container by pointer, and
  like every operation of the container they may act on the modules; so each returns the
  events it causes, its result and the container as the call leaves it.  Neither of them
  writes a field of the container or reaches a module.
\<close>

definition Instance :: "('t \<Rightarrow> 't \<Rightarrow> bool) \<Rightarrow> ('m, 't) container \<Rightarrow> 't \<Rightarrow>
    't event list \<times> ('t error + 't iface) \<times> ('m, 't) container" where
  "Instance asg c t = ([], findInstanceByType asg c t, c)"

definition InstanceByName :: "('m, 't) container \<Rightarrow> string \<Rightarrow>
    't event list \<times> ('t error + 't iface) \<times> ('m, 't) container" where
  "InstanceByName c n = ([], findInstanceByName c n, c)"

text \<open>
  A caller that holds the container makes any number of calls, one after the other, each
  on the container as the call before left it; a panic of a call ends that call only.
\<close>

fun query :: "('t \<Rightarrow> 't \<Rightarrow> bool) \<Rightarrow> ('m, 't) container \<Rightarrow> 't key \<Rightarrow>
    't event list \<times> ('t error + 't iface) \<times> ('m, 't) container" where
  "query asg c (ByType t) = Instance asg c t"
| "query asg c (ByName n) = InstanceByName c n"

fun queries :: "('t \<Rightarrow> 't \<Rightarrow> bool) \<Rightarrow> ('m, 't) container \<Rightarrow> 't key list \<Rightarrow>
    't event list \<times> ('t error + 't iface) list \<times> ('m, 't) container" where
  "queries asg c [] = ([], [], c)"
| "queries asg c (q # qs) =
     (case query asg c q of
        (log, r, c') \<Rightarrow>
          (case queries asg c' qs of
             (log', rs, c'') \<Rightarrow> (log @ log', r # rs, c'')))"

definition CreateContainer ::
    "('m \<Rightarrow> 't error + 't reflectedModule) \<Rightarrow> ('t \<Rightarrow> 't \<Rightarrow> bool) \<Rightarrow> 'm list \<Rightarrow>
     't event list \<times> ('t error + ('m, 't) container)" where
  "CreateContainer reflectModule asg ms =
     populate reflectModule asg \<lparr>modules = ms, instanceByName = [], instanceByType = []\<rparr>"

subsection \<open>Auxiliary notions of the statements\<close>

text \<open>An instance whose dynamic type is assignable to \<open>t\<close>; the nil interface has no type.\<close>

definition assignable :: "('t \<Rightarrow> 't \<Rightarrow> bool) \<Rightarrow> 't \<Rightarrow> 't iface \<Rightarrow> bool" where
  "assignable asg t i = (case TypeOf i of None \<Rightarrow> False | Some ty \<Rightarrow> asg ty t)"

text \<open>
  The fallback as the spec words its alternative: a scan of every instance stored in
  the type index, instead of the instances keyed by name.
\<close>

definition findAssignableInTypeIndex ::
    "('t \<Rightarrow> 't \<Rightarrow> bool) \<Rightarrow> ('m, 't) container \<Rightarrow> 't \<Rightarrow> 't error + 't iface list" where
  "findAssignableInTypeIndex asg c t =
     assignableLoop asg t [] (concat (map snd (instanceByType c)))"






subsection \<open>Example modules\<close>

text \<open>
  Four types, of which \<open>Store\<close> is an interface that \<open>Database\<close> implements, and a few
  modules: \<open>moduleB\<close> provides the database \<open>db\<close>; \<open>moduleA\<close> needs the instance named
  \<open>db\<close> and provides the service \<open>svc\<close>, built from it; \<open>moduleL\<close> needs a \<open>Logger\<close>;
  \<open>moduleN\<close> has a factory that returns nil; \<open>moduleS\<close> needs what it provides itself;
  \<open>moduleD\<close> declares the name \<open>db\<close> a second time.  The modules are given by their
  descriptors, so \<^verbatim>\<open>reflectModule\<close> is \<open>Inr\<close>.
\<close>

datatype exType = Database | Service | Logger | Store

definition exAsg :: "exType \<Rightarrow> exType \<Rightarrow> bool" where
  "exAsg u t = (u = t \<or> (u = Database \<and> t = Store))"

definition moduleB :: "exType reflectedModule" where
  "moduleB = \<lparr>namedDepends = [], typedDepends = [],
     instances = [\<lparr>imName = ''db'', imTp = Database, imMethod = (\<lambda>held. Value Database 1)\<rparr>]\<rparr>"

definition moduleA :: "exType reflectedModule" where
  "moduleA = \<lparr>namedDepends = [\<lparr>nfName = ''db'', nfField = Store\<rparr>], typedDepends = [],
     instances = [\<lparr>imName = ''svc'', imTp = Service,
       imMethod = (\<lambda>held. case held of [Value ty r] \<Rightarrow> Value Service (r + 1) | _ \<Rightarrow> NilValue)\<rparr>]\<rparr>"

definition moduleL :: "exType reflectedModule" where
  "moduleL = \<lparr>namedDepends = [], typedDepends = [\<lparr>tfTp = Logger, tfField = Logger\<rparr>],
     instances = [\<lparr>imName = ''job'', imTp = Service, imMethod = (\<lambda>held. Value Service 3)\<rparr>]\<rparr>"

definition moduleN :: "exType reflectedModule" where
  "moduleN = \<lparr>namedDepends = [], typedDepends = [],
     instances = [\<lparr>imName = ''log'', imTp = Logger, imMethod = (\<lambda>held. NilValue)\<rparr>]\<rparr>"

definition moduleS :: "exType reflectedModule" where
  "moduleS = \<lparr>namedDepends = [\<lparr>nfName = ''self'', nfField = Service\<rparr>], typedDepends = [],
     instances = [\<lparr>imName = ''self'', imTp = Service, imMethod = (\<lambda>held. Value Service 4)\<rparr>]\<rparr>"

definition moduleD :: "exType reflectedModule" where
  "moduleD = \<lparr>namedDepends = [], typedDepends = [],
     instances = [\<lparr>imName = ''db'', imTp = Database, imMethod = (\<lambda>held. Value Database 5)\<rparr>]\<rparr>"

text \<open>
  The container that \<open>CreateContainer\<close> builds from \<open>moduleN\<close>, and the one it builds
  from \<open>moduleA\<close> and \<open>moduleB\<close> (see \<open>create_N\<close> and \<open>create_AB\<close>).
\<close>

definition containerN :: "(exType reflectedModule, exType) container" where
  "containerN = \<lparr>modules = [moduleN], instanceByName = [(''log'', NilValue)],
     instanceByType = [(Logger, [NilValue])]\<rparr>"

definition containerAB :: "(exType reflectedModule, exType) container" where
  "containerAB = \<lparr>modules = [moduleA, moduleB],
     instanceByName = [(''db'', Value Database 1), (''svc'', Value Service 2)],
     instanceByType = [(Database, [Value Database 1]), (Service, [Value Service 2])]\<rparr>"




text \<open>
  The events of \<open>CreateContainer\<close> on \<open>moduleA\<close> and \<open>moduleB\<close>, the dependency graph of
  the two (\<open>moduleA\<close> depends on \<open>moduleB\<close>), and the graph of \<open>moduleL\<close> alone.
\<close>

definition logAB :: "exType event list" where
  "logAB = [Call (hd (instances moduleB)) (Value Database 1),
     SetNamed (hd (namedDepends moduleA)) (Value Database 1),
     Call (hd (instances moduleA)) (Value Service 2)]"







section \<open>Properties\<close>

subsection \<open>Evaluating the examples\<close>

lemmas example_defs =
  moduleA_def moduleB_def moduleL_def moduleN_def moduleS_def moduleD_def exAsg_def

lemmas create_defs =
  CreateContainer_def populate_def reflectModules_def createGraph_def factoryNames_def
  dependsOn_def providesName_def typedCandidates_def providesExact_def
  providesAssignable_def instantiationOrder_def schedule.simps ready_def
  instantiateModule_def
  findInstanceByName_def findInstanceByType_def findAssignableInstances_def exactlyOne_def
  fieldSet_def registerInstance_def

lemma create_N:
  "CreateContainer Inr exAsg [moduleN] =
     ([Call (hd (instances moduleN)) NilValue], Inr containerN)"
  by (simp add: create_defs example_defs containerN_def)

lemma create_AB:
  "CreateContainer Inr exAsg [moduleA, moduleB] =
     ([Call (hd (instances moduleB)) (Value Database 1),
       SetNamed (hd (namedDepends moduleA)) (Value Database 1),
       Call (hd (instances moduleA)) (Value Service 2)], Inr containerAB)"
  by (simp add: create_defs example_defs containerAB_def)

subsection \<open>Lookup\<close>

lemma assignableLoop_eq:
  "assignableLoop asg t acc xs =
     (if NilValue \<in> set xs then Inl NilPointerDereference
      else Inr (acc @ filter (assignable asg t) xs))"
proof (induction xs arbitrary: acc)
  case Nil
  show ?case by simp
next
  case (Cons i rest)
  show ?case
  proof (cases i)
    case NilValue
    then show ?thesis by simp
  next
    case (Value ty r)
    have "assignable asg t (Value ty r) = asg ty t"
      by (simp add: assignable_def)
    with Value show ?thesis by (simp add: Cons.IH)
  qed
qed

lemma exactlyOne_cases:
  "exactlyOne t [] = Inl (InstanceNotFoundError (ByType t))"
  "exactlyOne t [i] = Inr i"
  "length xs > 1 \<Longrightarrow> exactlyOne t xs = Inl (AmbiguousInstanceError t)"
  by (auto simp: exactlyOne_def)

lemma queries_eq:
  "queries asg c qs = ([], map (\<lambda>q. fst (snd (query asg c q))) qs, c)"
proof (induction qs)
  case Nil
  show ?case by simp
next
  case (Cons q qs)
  have "\<exists>r. query asg c q = ([], r, c)"
    by (cases q) (simp_all add: Instance_def InstanceByName_def)
  then obtain r where "query asg c q = ([], r, c)" ..
  then show ?case using Cons.IH by simp
qed

text \<open>
  C1, as the code has it.  \<open>Instance\<close> looks the type up in the exact-type index first:
  an entry with exactly one instance is the result, an entry with more than one is the
  \<open>AmbiguousInstanceError\<close>, whatever the name index holds.  Only when the index has no
  entry for the type are the instances keyed by name scanned for assignability; then,
  provided none of them is nil, zero matches are the \<open>InstanceNotFoundError\<close>, exactly
  one match is the result and more than one are the \<open>AmbiguousInstanceError\<close>.
\<close>

theorem Instance_exact_then_assignable:
  "(\<forall>i. map_of (instanceByType c) t = Some [i] \<longrightarrow> Instance asg c t = ([], Inr i, c)) \<and>
   (\<forall>xs. map_of (instanceByType c) t = Some xs \<and> length xs > 1 \<longrightarrow>
      Instance asg c t = ([], Inl (AmbiguousInstanceError t), c)) \<and>
   (map_of (instanceByType c) t = None \<and> NilValue \<notin> snd ` set (instanceByName c) \<longrightarrow>
      (filter (assignable asg t) (map snd (instanceByName c)) = [] \<longrightarrow>
         Instance asg c t = ([], Inl (InstanceNotFoundError (ByType t)), c)) \<and>
      (\<forall>i. filter (assignable asg t) (map snd (instanceByName c)) = [i] \<longrightarrow>
         Instance asg c t = ([], Inr i, c)) \<and>
      (length (filter (assignable asg t) (map snd (instanceByName c))) > 1 \<longrightarrow>
         Instance asg c t = ([], Inl (AmbiguousInstanceError t), c)))"
proof -
  have fallback: "findInstanceByType asg c t =
        exactlyOne t (filter (assignable asg t) (map snd (instanceByName c)))"
    if "map_of (instanceByType c) t = None" and "NilValue \<notin> snd ` set (instanceByName c)"
  proof -
    from that(2) have "NilValue \<notin> set (map snd (instanceByName c))" by simp
    with that(1) show ?thesis
      by (simp add: findInstanceByType_def findAssignableInstances_def assignableLoop_eq)
  qed
  have exact: "\<And>xs. map_of (instanceByType c) t = Some xs \<Longrightarrow>
      findInstanceByType asg c t = exactlyOne t xs"
    by (simp add: findInstanceByType_def)
  show ?thesis
    by (auto simp: Instance_def fallback exact exactlyOne_cases)
qed

text \<open>
  The theorem at the container of \<open>moduleA\<close> and \<open>moduleB\<close>: \<open>Service\<close> has an entry with
  one instance; \<open>Store\<close> has no entry and one assignable instance, the database;
  \<open>Logger\<close> has no entry and no assignable instance.  And at the container of
  \<open>moduleN\<close>: \<open>Logger\<close> has an entry with one instance, which is the result although
  it is nil and no scan could pass it.
\<close>

theorem Instance_exact_then_assignable_witness:
  "Instance exAsg containerAB Service = ([], Inr (Value Service 2), containerAB) \<and>
   Instance exAsg containerN Logger = ([], Inr NilValue, containerN) \<and>
   map_of (instanceByType containerAB) Store = None \<and>
   NilValue \<notin> snd ` set (instanceByName containerAB) \<and>
   Instance exAsg containerAB Store = ([], Inr (Value Database 1), containerAB) \<and>
   Instance exAsg containerAB Logger =
     ([], Inl (InstanceNotFoundError (ByType Logger)), containerAB)"
proof -
  have h: "NilValue \<notin> snd ` set (instanceByName containerAB)"
    by (simp add: containerAB_def)
  have s: "map_of (instanceByType containerAB) Store = None"
    and l: "map_of (instanceByType containerAB) Logger = None"
    by (simp_all add: containerAB_def)
  have 1: "Instance exAsg containerAB Service = ([], Inr (Value Service 2), containerAB)"
    using Instance_exact_then_assignable [of containerAB Service exAsg]
    by (simp add: containerAB_def)
  have 2: "Instance exAsg containerN Logger = ([], Inr NilValue, containerN)"
    using Instance_exact_then_assignable [of containerN Logger exAsg]
    by (simp add: containerN_def)
  have "filter (assignable exAsg Store) (map snd (instanceByName containerAB)) =
      [Value Database 1]"
    by (simp add: containerAB_def assignable_def exAsg_def)
  with Instance_exact_then_assignable [of containerAB Store exAsg] h s
  have 3: "Instance exAsg containerAB Store = ([], Inr (Value Database 1), containerAB)"
    by blast
  have "filter (assignable exAsg Logger) (map snd (instanceByName containerAB)) = []"
    by (simp add: containerAB_def assignable_def exAsg_def)
  with Instance_exact_then_assignable [of containerAB Logger exAsg] h l
  have 4: "Instance exAsg containerAB Logger =
     ([], Inl (InstanceNotFoundError (ByType Logger)), containerAB)"
    by blast
  from 1 2 s h 3 4 show ?thesis by blast
qed

text \<open>
  C1 as it is stated fails where a factory has returned nil: the container built from
  \<open>moduleN\<close> has no entry for \<open>Store\<close> and no instance assignable to it, and
  \<open>Instance\<close> does not fail with the \<open>InstanceNotFoundError\<close> but with the nil
  dereference.
\<close>

theorem Instance_not_found_counterexample:
  "CreateContainer Inr exAsg [moduleN] =
     ([Call (hd (instances moduleN)) NilValue], Inr containerN) \<and>
   map_of (instanceByType containerN) Store = None \<and>
   filter (assignable exAsg Store) (map snd (instanceByName containerN)) = [] \<and>
   Instance exAsg containerN Store = ([], Inl NilPointerDereference, containerN) \<and>
   Instance exAsg containerN Store \<noteq>
     ([], Inl (InstanceNotFoundError (ByType Store)), containerN)"
proof -
  have "Instance exAsg containerN Store = ([], Inl NilPointerDereference, containerN)"
    by (simp add: Instance_def findInstanceByType_def findAssignableInstances_def
        containerN_def)
  then show ?thesis
    by (simp add: create_N) (simp add: containerN_def assignable_def)
qed

text \<open>
  C10.  When a registered instance is the nil interface and the exact-type index has no
  entry for the type, \<open>Instance\<close> ends in the nil dereference of the scan, whatever else
  is registered; it reports neither of its own two errors.
\<close>

theorem nil_instance_crashes_fallback:
  "NilValue \<in> snd ` set (instanceByName c) \<Longrightarrow> map_of (instanceByType c) t = None \<Longrightarrow>
   Instance asg c t = ([], Inl NilPointerDereference, c)"
  by (simp add: Instance_def findInstanceByType_def findAssignableInstances_def
      assignableLoop_eq)

theorem nil_instance_crashes_fallback_witness:
  "NilValue \<in> snd ` set (instanceByName containerN) \<and>
   map_of (instanceByType containerN) Store = None \<and>
   Instance exAsg containerN Store = ([], Inl NilPointerDereference, containerN)"
proof -
  have 1: "NilValue \<in> snd ` set (instanceByName containerN)"
    by (simp add: containerN_def)
  have 2: "map_of (instanceByType containerN) Store = None"
    by (simp add: containerN_def)
  show ?thesis
    using 1 2 nil_instance_crashes_fallback [OF 1 2, of exAsg] by simp
qed

text \<open>
  C7.  \<open>InstanceByName\<close> is the exact lookup in the name index: with no instance under
  the name it fails with the \<open>InstanceNotFoundError\<close> of that name, otherwise it returns
  the instance registered under the name; and after any calls of the two lookups it
  returns what it returned before.
\<close>

theorem InstanceByName_exact_lookup:
  "(map_of (instanceByName c) n = None \<longrightarrow>
      InstanceByName c n = ([], Inl (InstanceNotFoundError (ByName n)), c)) \<and>
   (\<forall>i. map_of (instanceByName c) n = Some i \<longrightarrow> InstanceByName c n = ([], Inr i, c)) \<and>
   (\<forall>qs. InstanceByName (snd (snd (queries asg c qs))) n = InstanceByName c n)"
  by (simp add: InstanceByName_def findInstanceByName_def queries_eq)

theorem InstanceByName_exact_lookup_witness:
  "InstanceByName containerAB ''db'' = ([], Inr (Value Database 1), containerAB) \<and>
   InstanceByName containerAB ''cache'' =
     ([], Inl (InstanceNotFoundError (ByName ''cache'')), containerAB) \<and>
   InstanceByName (snd (snd (queries exAsg containerAB [ByName ''cache'', ByType Store])))
     ''db'' = InstanceByName containerAB ''db''"
proof -
  have a: "map_of (instanceByName containerAB) ''db'' = Some (Value Database 1)"
    by (simp add: containerAB_def)
  have b: "map_of (instanceByName containerAB) ''cache'' = None"
    by (simp add: containerAB_def)
  note db = InstanceByName_exact_lookup [of containerAB "''db''" exAsg]
  note cache = InstanceByName_exact_lookup [of containerAB "''cache''" exAsg]
  have 1: "InstanceByName containerAB ''db'' = ([], Inr (Value Database 1), containerAB)"
    using db a by blast
  have 2: "InstanceByName containerAB ''cache'' =
      ([], Inl (InstanceNotFoundError (ByName ''cache'')), containerAB)"
    using cache b by blast
  have 3: "InstanceByName
      (snd (snd (queries exAsg containerAB [ByName ''cache'', ByType Store]))) ''db'' =
      InstanceByName containerAB ''db''"
    using db by blast
  show ?thesis using 1 2 3 by blast
qed

text \<open>
  C8.  Neither \<open>Instance\<close> nor \<open>InstanceByName\<close> changes the container, whether the call
  returns an instance or panics; so in any sequence of calls each call returns what it
  returns on the container as construction left it, and the container is the same at the
  end.
\<close>

theorem queries_leave_container_unchanged:
  "snd (snd (Instance asg c t)) = c \<and> snd (snd (InstanceByName c n)) = c \<and>
   queries asg c qs = ([], map (\<lambda>q. fst (snd (query asg c q))) qs, c)"
  by (simp add: Instance_def InstanceByName_def queries_eq)

subsection \<open>The executor\<close>

lemma injectNamed_Inr:
  "injectNamed asg c deps = (log, Inr vs) \<Longrightarrow>
   list_all2 (\<lambda>dep i. findInstanceByName c (nfName dep) = Inr i \<and>
       fieldSet asg (nfField dep) i = Inr ()) deps vs \<and>
   log = map (\<lambda>(dep, i). SetNamed dep i) (zip deps vs)"
  by (induction deps arbitrary: log vs) (auto split: sum.splits prod.splits)


lemma injectTyped_Inr:
  "injectTyped asg c deps = (log, Inr vs) \<Longrightarrow>
   list_all2 (\<lambda>dep i. findInstanceByType asg c (tfTp dep) = Inr i \<and>
       fieldSet asg (tfField dep) i = Inr ()) deps vs \<and>
   log = map (\<lambda>(dep, i). SetTyped dep i) (zip deps vs)"
  by (induction deps arbitrary: log vs) (auto split: sum.splits prod.splits)


lemma calls_SetNamed: "calls (map (\<lambda>(dep, i). SetNamed dep i) xs) = []"
  by (induction xs) auto

lemma calls_SetTyped: "calls (map (\<lambda>(dep, i). SetTyped dep i) xs) = []"
  by (induction xs) auto

lemma calls_append: "calls (xs @ ys) = calls xs @ calls ys"
  by (induction xs rule: calls.induct) auto

lemma calls_Call: "calls (map (\<lambda>im. Call im (f im)) ims) = map (\<lambda>im. (im, f im)) ims"
  by (induction ims) auto

lemma callInstances_eq:
  "callInstances held c ims =
     (map (\<lambda>im. Call im (imMethod im held)) ims,
      foldl (\<lambda>c im. registerInstance c im (imMethod im held)) c ims)"
  by (induction ims arbitrary: c) auto




lemma registerInstance_lookup:
  "map_of (instanceByName (registerInstance c im i)) (imName im) = Some i"
  "map_of (instanceByType (registerInstance c im i)) (imTp im) =
     Some ((case map_of (instanceByType c) (imTp im) of None \<Rightarrow> [] | Some xs \<Rightarrow> xs) @ [i])"
  by (simp_all add: registerInstance_def Let_def AList.update_conv')









subsection \<open>The instantiation order\<close>

lemma firstDuplicate_None: "firstDuplicate ns = None \<longleftrightarrow> distinct ns"
  by (induction ns) auto

lemma schedule_mset:
  "schedule es placed remaining = (Inr order :: 't error + nat list) \<Longrightarrow>
   mset order = mset placed + mset remaining"
proof (induction es placed remaining rule: schedule.induct)
  case (1 es placed remaining)
  have unfold: "(schedule es placed remaining :: 't error + nat list) =
     (if remaining = [] then Inr placed
      else (case find (ready es placed) remaining of
              None \<Rightarrow> Inl CyclicDependencyError
            | Some a \<Rightarrow> schedule es (placed @ [a]) (remove1 a remaining)))"
    by (rule schedule.simps)
  show ?case
  proof (cases "remaining = []")
    case True
    with "1.prems" unfold show ?thesis by simp
  next
    case False
    with "1.prems" unfold obtain a where f: "find (ready es placed) remaining = Some a"
      and r: "schedule es (placed @ [a]) (remove1 a remaining) = (Inr order :: 't error + nat list)"
      by (cases "find (ready es placed) remaining") auto
    from f have "a \<in> set remaining" by (auto simp: find_Some_iff)
    with "1.IH" [OF False f r] show ?thesis by simp
  qed
qed




subsection \<open>Construction\<close>

lemma createGraph_Inr:
  assumes "createGraph asg rms = Inr g"
  shows "distinct (factoryNames rms)" and "graphModules g = rms"
    and "snd ` set (graphEdges g) \<subseteq> set [0..<length rms]"
proof -
  from assms have d: "firstDuplicate (factoryNames rms) = None"
    by (auto simp: createGraph_def split: option.splits)
  then show "distinct (factoryNames rms)" by (simp add: firstDuplicate_None)
  from assms d show "graphModules g = rms"
    by (auto simp: createGraph_def)
  from assms d have "graphEdges g = concat (map (\<lambda>a. map (\<lambda>b. (a, b))
      (filter (dependsOn asg rms a) [0..<length rms])) [0..<length rms])"
    by (auto simp: createGraph_def)
  then show "snd ` set (graphEdges g) \<subseteq> set [0..<length rms]"
    by auto
qed

lemma createGraph_collision:
  "\<not> distinct (factoryNames rms) \<Longrightarrow> \<exists>n. createGraph asg rms = Inl (NameCollisionError n)"
  by (cases "firstDuplicate (factoryNames rms)")
    (auto simp: createGraph_def firstDuplicate_None [symmetric])

lemma reflectLoop_Inr:
  "reflectLoop reflectModule ms = Inr rms \<Longrightarrow>
   list_all2 (\<lambda>m rm. reflectModule m = Inr rm) ms rms"
  by (induction ms arbitrary: rms) (auto split: sum.splits)

lemma instantiationOrder_mset:
  fixes g :: "'t graph"
  assumes "instantiationOrder g = Inr ordered"
  shows "mset ordered = mset (graphModules g)"
proof -
  from assms obtain order where
    s: "schedule (graphEdges g) [] [0..<length (graphModules g)] = (Inr order :: 't error + nat list)"
    and o: "ordered = map (\<lambda>a. graphModules g ! a) order"
    by (auto simp: instantiationOrder_def split: sum.splits)
  from schedule_mset [OF s] have "mset order = mset [0..<length (graphModules g)]"
    by simp
  then have "mset (map (\<lambda>a. graphModules g ! a) order) =
      mset (map (\<lambda>a. graphModules g ! a) [0..<length (graphModules g)])"
    by (simp only: mset_map)
  with o show ?thesis by (simp add: map_nth)
qed




lemma CreateContainer_Inr:
  assumes "CreateContainer reflectModule asg ms = (log, Inr c)"
  shows "\<exists>rms g ordered. reflectLoop reflectModule ms = Inr rms \<and>
     createGraph asg rms = Inr g \<and> instantiationOrder g = Inr ordered \<and>
     instantiateModules asg \<lparr>modules = ms, instanceByName = [], instanceByType = []\<rparr> ordered =
       (log, Inr c)"
  using assms
  by (auto simp: CreateContainer_def populate_def reflectModules_def split: sum.splits)


lemma concat_not_distinct:
  assumes "a < b" and "b < length xss" and "n \<in> set (xss ! a)" and "n \<in> set (xss ! b)"
  shows "\<not> distinct (concat xss)"
proof -
  from assms have a: "a < length xss" by simp
  have split: "xss = take a xss @ xss ! a # drop (Suc a) xss"
    using a by (rule id_take_nth_drop)
  from assms have "drop (Suc a) xss ! (b - Suc a) = xss ! b" and "b - Suc a < length (drop (Suc a) xss)"
    by simp_all
  then have "xss ! b \<in> set (drop (Suc a) xss)"
    by (metis nth_mem)
  with assms(4) have "n \<in> set (concat (drop (Suc a) xss))" by auto
  with assms(3) have "\<not> distinct (xss ! a @ concat (drop (Suc a) xss))" by auto
  then have "\<not> distinct (concat (take a xss @ xss ! a # drop (Suc a) xss))" by auto
  with split show ?thesis by metis
qed



text \<open>
  C4.  When two modules of the input declare a factory of the same name,
  \<open>CreateContainer\<close> panics before any field is set or factory called; when all modules
  are described it is the name collision that it reports.  The outcome is a function of
  the modules.
\<close>

theorem name_collision_fails:
  assumes "a < b" and "b < length ms"
    and "reflectModule (ms ! a) = Inr rma" and "reflectModule (ms ! b) = Inr rmb"
    and "n \<in> set (map imName (instances rma))" and "n \<in> set (map imName (instances rmb))"
  shows "(\<exists>e. CreateContainer reflectModule asg ms = ([], Inl e)) \<and>
    (\<forall>rms. reflectLoop reflectModule ms = Inr rms \<longrightarrow>
       (\<exists>n'. CreateContainer reflectModule asg ms = ([], Inl (NameCollisionError n'))))"
proof -
  have collision: "\<exists>n'. CreateContainer reflectModule asg ms = ([], Inl (NameCollisionError n'))"
    if r: "reflectLoop reflectModule ms = Inr rms" for rms
  proof -
    from reflectLoop_Inr [OF r] have len: "length ms = length rms"
      and nth: "\<And>i. i < length ms \<Longrightarrow> reflectModule (ms ! i) = Inr (rms ! i)"
      by (auto simp: list_all2_conv_all_nth)
    from nth [of a] nth [of b] assms have "rms ! a = rma" "rms ! b = rmb" by simp_all
    with assms len have "\<not> distinct (concat (map (\<lambda>rm. map imName (instances rm)) rms))"
      by (intro concat_not_distinct [of a b _ n]) simp_all
    then have "\<not> distinct (factoryNames rms)" by (simp add: factoryNames_def)
    from createGraph_collision [OF this, of asg] obtain n' where
      "createGraph asg rms = Inl (NameCollisionError n')" ..
    with r show ?thesis
      by (auto simp: CreateContainer_def populate_def reflectModules_def)
  qed
  show ?thesis
  proof (cases "reflectLoop reflectModule ms")
    case (Inl err)
    then have "CreateContainer reflectModule asg ms = ([], Inl err)"
      by (simp add: CreateContainer_def populate_def reflectModules_def)
    with Inl show ?thesis by simp
  next
    case (Inr rms)
    with collision show ?thesis by blast
  qed
qed

text \<open>The theorem at \<open>moduleB\<close> and \<open>moduleD\<close>, which both declare \<open>db\<close>.\<close>

theorem name_collision_fails_witness:
  "(0::nat) < 1 \<and> 1 < length [moduleB, moduleD] \<and>
   ''db'' \<in> set (map imName (instances moduleB)) \<and>
   ''db'' \<in> set (map imName (instances moduleD)) \<and>
   CreateContainer Inr exAsg [moduleB, moduleD] = ([], Inl (NameCollisionError ''db''))"
proof -
  have 1: "(0::nat) < 1" and 2: "1 < length [moduleB, moduleD]" by simp_all
  have 3: "(Inr :: _ \<Rightarrow> exType error + _) ([moduleB, moduleD] ! 0) = Inr moduleB"
    and 4: "(Inr :: _ \<Rightarrow> exType error + _) ([moduleB, moduleD] ! 1) = Inr moduleD" by simp_all
  have 5: "''db'' \<in> set (map imName (instances moduleB))" by (simp add: moduleB_def)
  have 6: "''db'' \<in> set (map imName (instances moduleD))" by (simp add: moduleD_def)
  from name_collision_fails [OF 1 2 3 4 5 6, of exAsg]
  obtain n' where "CreateContainer Inr exAsg [moduleB, moduleD] = ([], Inl (NameCollisionError n'))"
    by auto
  moreover have "CreateContainer Inr exAsg [moduleB, moduleD] =
      ([], Inl (NameCollisionError ''db''))"
    by (simp add: CreateContainer_def populate_def reflectModules_def createGraph_def
        factoryNames_def moduleB_def moduleD_def)
  ultimately show ?thesis using 1 2 5 6 by simp
qed

subsection \<open>The registry\<close>




lemma instantiateModule_Inr:
  assumes "instantiateModule asg c rm = (log, Inr c')"
  shows "map fst (calls log) = instances rm"
    and "c' = foldl (\<lambda>c (im, i). registerInstance c im i) c (calls log)"
proof -
  from assms obtain log1 named where n: "injectNamed asg c (namedDepends rm) = (log1, Inr named)"
    by (auto simp: instantiateModule_def split: prod.splits sum.splits)
  from assms n obtain log2 typed where t: "injectTyped asg c (typedDepends rm) = (log2, Inr typed)"
    by (auto simp: instantiateModule_def split: prod.splits sum.splits)
  from assms n t have log: "log = log1 @ log2 @
      map (\<lambda>im. Call im (imMethod im (named @ typed))) (instances rm)"
    and c': "c' = foldl (\<lambda>c im. registerInstance c im (imMethod im (named @ typed))) c
      (instances rm)"
    by (auto simp: instantiateModule_def callInstances_eq)
  from injectNamed_Inr [OF n] have "calls log1 = []" by (simp add: calls_SetNamed)
  moreover from injectTyped_Inr [OF t] have "calls log2 = []" by (simp add: calls_SetTyped)
  ultimately have cl: "calls log = map (\<lambda>im. (im, imMethod im (named @ typed))) (instances rm)"
    using log by (simp add: calls_append calls_Call)
  then show "map fst (calls log) = instances rm" by (simp add: comp_def)
  from c' cl show "c' = foldl (\<lambda>c (im, i). registerInstance c im i) c (calls log)"
    by (simp add: foldl_map)
qed

lemma instantiateModules_Inr:
  "instantiateModules asg c rms = (log, Inr c') \<Longrightarrow>
   map fst (calls log) = concat (map instances rms) \<and>
   c' = foldl (\<lambda>c (im, i). registerInstance c im i) c (calls log)"
proof (induction rms arbitrary: c log)
  case Nil
  then show ?case by simp
next
  case (Cons rm rest)
  from Cons.prems obtain log1 c1 log2 where
    1: "instantiateModule asg c rm = (log1, Inr c1)"
    and 2: "instantiateModules asg c1 rest = (log2, Inr c')" and l: "log = log1 @ log2"
    by (auto split: prod.splits sum.splits)
  from instantiateModule_Inr [OF 1] Cons.IH [OF 2] l show ?case
    by (simp add: calls_append)
qed


lemma update_fresh: "k \<notin> fst ` set al \<Longrightarrow> AList.update k v al = al @ [(k, v)]"
  by (induction al) auto

lemma registerInstance_fresh:
  "imName im \<notin> fst ` set (instanceByName c) \<Longrightarrow>
   instanceByName (registerInstance c im i) = instanceByName c @ [(imName im, i)]"
  by (simp add: registerInstance_def Let_def update_fresh)

lemma registerInstance_other:
  "n \<noteq> imName im \<Longrightarrow>
   map_of (instanceByName (registerInstance c im i)) n = map_of (instanceByName c) n"
  "t \<noteq> imTp im \<Longrightarrow>
   map_of (instanceByType (registerInstance c im i)) t = map_of (instanceByType c) t"
  by (simp_all add: registerInstance_def Let_def AList.update_conv')

lemma registerInstance_modules: "modules (registerInstance c im i) = modules c"
  by (simp add: registerInstance_def Let_def)

lemma update_type_mset:
  "mset (concat (map snd (AList.update k
      ((case map_of al k of None \<Rightarrow> [] | Some xs \<Rightarrow> xs) @ [i]) al))) =
   mset (concat (map snd al)) + {#i#}"
  by (induction al) auto

lemma registerInstance_type_mset:
  "mset (concat (map snd (instanceByType (registerInstance c im i)))) =
   mset (concat (map snd (instanceByType c))) + {#i#}"
  by (simp add: registerInstance_def Let_def update_type_mset)

lemma registerInstance_type_keys:
  "distinct (map fst (instanceByType c)) \<Longrightarrow>
   distinct (map fst (instanceByType (registerInstance c im i)))"
  by (simp add: registerInstance_def Let_def AList.distinct_update)

lemma replay_modules:
  "modules (foldl (\<lambda>c (im, i). registerInstance c im i) c cs) = modules c"
  by (induction cs arbitrary: c) (auto simp: registerInstance_modules)

lemma replay_names:
  "distinct (map (\<lambda>(im, i). imName im) cs) \<Longrightarrow>
   (\<lambda>(im, i). imName im) ` set cs \<inter> fst ` set (instanceByName c) = {} \<Longrightarrow>
   instanceByName (foldl (\<lambda>c (im, i). registerInstance c im i) c cs) =
     instanceByName c @ map (\<lambda>(im, i). (imName im, i)) cs"
proof (induction cs arbitrary: c)
  case Nil
  show ?case by simp
next
  case (Cons p cs)
  obtain im i where p: "p = (im, i)" by (cases p)
  from Cons.prems p have fresh: "imName im \<notin> fst ` set (instanceByName c)" by auto
  then have reg: "instanceByName (registerInstance c im i) = instanceByName c @ [(imName im, i)]"
    by (rule registerInstance_fresh)
  from Cons.prems p have d: "distinct (map (\<lambda>(im, i). imName im) cs)"
    and notin: "imName im \<notin> (\<lambda>(im, i). imName im) ` set cs"
    and disj: "(\<lambda>(im, i). imName im) ` set cs \<inter> fst ` set (instanceByName c) = {}"
    by auto
  from notin disj have "(\<lambda>(im, i). imName im) ` set cs \<inter>
      fst ` set (instanceByName (registerInstance c im i)) = {}"
    by (auto simp: reg)
  from Cons.IH [OF d this] p reg show ?case by simp
qed

lemma replay_type_mset:
  "mset (concat (map snd (instanceByType (foldl (\<lambda>c (im, i). registerInstance c im i) c cs)))) =
   mset (concat (map snd (instanceByType c))) + mset (map snd cs)"
proof (induction cs arbitrary: c)
  case Nil
  show ?case by simp
next
  case (Cons p cs)
  obtain im i where p: "p = (im, i)" by (cases p)
  show ?case by (simp add: p Cons.IH registerInstance_type_mset)
qed

lemma replay_type_keys:
  "distinct (map fst (instanceByType c)) \<Longrightarrow>
   distinct (map fst (instanceByType (foldl (\<lambda>c (im, i). registerInstance c im i) c cs)))"
proof (induction cs arbitrary: c)
  case Nil
  then show ?case by simp
next
  case (Cons p cs)
  obtain im i where p: "p = (im, i)" by (cases p)
  from Cons.prems have "distinct (map fst (instanceByType (registerInstance c im i)))"
    by (rule registerInstance_type_keys)
  from Cons.IH [OF this] p show ?case by simp
qed

lemma replay_type_lookup:
  "map_of (instanceByType (foldl (\<lambda>c (im, i). registerInstance c im i) c cs)) t =
     (if filter (\<lambda>(im, i). imTp im = t) cs = [] then map_of (instanceByType c) t
      else Some ((case map_of (instanceByType c) t of None \<Rightarrow> [] | Some xs \<Rightarrow> xs) @
             map snd (filter (\<lambda>(im, i). imTp im = t) cs)))"
proof (induction cs arbitrary: c)
  case Nil
  show ?case by simp
next
  case (Cons p cs)
  obtain im i where p: "p = (im, i)" by (cases p)
  show ?case
  proof (cases "imTp im = t")
    case True
    with registerInstance_lookup(2) [of c im i]
    have "map_of (instanceByType (registerInstance c im i)) t =
        Some ((case map_of (instanceByType c) t of None \<Rightarrow> [] | Some xs \<Rightarrow> xs) @ [i])"
      by simp
    with True p show ?thesis by (simp add: Cons.IH)
  next
    case False
    then have "map_of (instanceByType (registerInstance c im i)) t = map_of (instanceByType c) t"
      by (intro registerInstance_other) simp
    with False p show ?thesis by (simp add: Cons.IH)
  qed
qed

lemma distinct_nth_notin_take:
  "distinct xs \<Longrightarrow> k < length xs \<Longrightarrow> xs ! k \<notin> set (take k xs)"
proof -
  assume d: "distinct xs" and k: "k < length xs"
  from k have "xs = take k xs @ xs ! k # drop (Suc k) xs" by (rule id_take_nth_drop)
  with d have "distinct (take k xs @ xs ! k # drop (Suc k) xs)" by simp
  then show ?thesis by simp
qed

lemma mset_concat_map_cong:
  "mset xs = mset ys \<Longrightarrow> mset (concat (map f xs)) = mset (concat (map f ys))"
proof -
  assume "mset xs = mset ys"
  then have "image_mset (\<lambda>x. mset (f x)) (mset xs) = image_mset (\<lambda>x. mset (f x)) (mset ys)"
    by simp
  then have "sum_mset (mset (map (\<lambda>x. mset (f x)) xs)) =
      sum_mset (mset (map (\<lambda>x. mset (f x)) ys))"
    by simp
  then have "sum_list (map (\<lambda>x. mset (f x)) xs) = sum_list (map (\<lambda>x. mset (f x)) ys)"
    by (simp only: sum_mset_sum_list)
  then show ?thesis by (simp add: mset_concat comp_def)
qed

lemma exactlyOne_mset:
  assumes "mset xs = mset ys"
  shows "exactlyOne t xs = exactlyOne t ys"
proof -
  from assms have len: "length xs = length ys" by (rule mset_eq_length)
  show ?thesis
  proof (cases "length xs = 1")
    case True
    then obtain x where x: "xs = [x]" by (cases xs) auto
    from True len obtain y where y: "ys = [y]" by (cases ys) auto
    note xy = x y
    with assms have "x = y" by simp
    with xy show ?thesis by simp
  next
    case False
    with len show ?thesis by (cases xs; cases ys) (auto simp: exactlyOne_def)
  qed
qed

lemma scan_mset:
  assumes "mset xs = mset ys"
  shows "(case assignableLoop asg t [] xs of Inl e \<Rightarrow> Inl e | Inr is \<Rightarrow> exactlyOne t is) =
     (case assignableLoop asg t [] ys of Inl e \<Rightarrow> Inl e | Inr is \<Rightarrow> exactlyOne t is)"
proof -
  from assms have s: "set xs = set ys" by (rule mset_eq_setD)
  from assms have "mset (filter (assignable asg t) xs) = mset (filter (assignable asg t) ys)"
    by simp
  then have "exactlyOne t (filter (assignable asg t) xs) = exactlyOne t (filter (assignable asg t) ys)"
    by (rule exactlyOne_mset)
  with s show ?thesis by (simp add: assignableLoop_eq)
qed

lemma findInstanceByType_order:
  assumes "mset (instanceByName c) = mset (instanceByName c')"
    and "instanceByType c = instanceByType c'"
  shows "findInstanceByType asg c t = findInstanceByType asg c' t"
proof -
  from assms(1) have "mset (map snd (instanceByName c)) = mset (map snd (instanceByName c'))"
    by simp
  from scan_mset [where asg = asg and t = t, OF this]
  have "(case findAssignableInstances asg c t of Inl e \<Rightarrow> Inl e
          | Inr found \<Rightarrow> exactlyOne t found) =
        (case findAssignableInstances asg c' t of Inl e \<Rightarrow> Inl e
          | Inr found \<Rightarrow> exactlyOne t found)"
    by (simp add: findAssignableInstances_def)
  with assms(2) show ?thesis
    by (simp add: findInstanceByType_def split: option.splits)
qed

subsection \<open>The container after construction\<close>

lemma CreateContainer_calls:
  fixes c :: "('m, 't) container"
  assumes "CreateContainer reflectModule asg ms = (log, Inr c)"
  shows "distinct (map (\<lambda>(im, i). imName im) (calls log))"
    and "c = foldl (\<lambda>c (im, i). registerInstance c im i)
          \<lparr>modules = ms, instanceByName = [], instanceByType = []\<rparr> (calls log)"
proof -
  from CreateContainer_Inr [OF assms] obtain rms g ordered where
    r: "reflectLoop reflectModule ms = Inr rms" and g: "createGraph asg rms = Inr g"
    and o: "instantiationOrder g = Inr ordered"
    and i: "instantiateModules asg \<lparr>modules = ms, instanceByName = [], instanceByType = []\<rparr>
          ordered = (log, Inr c)"
    by blast
  from instantiateModules_Inr [OF i] have cl: "map fst (calls log) = concat (map instances ordered)"
    and c: "c = foldl (\<lambda>c (im, i). registerInstance c im i)
          \<lparr>modules = ms, instanceByName = [], instanceByType = []\<rparr> (calls log)"
    by simp_all
  from instantiationOrder_mset [OF o] createGraph_Inr(2) [OF g] have "mset ordered = mset rms"
    by simp
  then have "mset (concat (map (\<lambda>rm. map imName (instances rm)) ordered)) =
      mset (concat (map (\<lambda>rm. map imName (instances rm)) rms))"
    by (rule mset_concat_map_cong)
  then have "distinct (concat (map (\<lambda>rm. map imName (instances rm)) ordered)) \<longleftrightarrow>
      distinct (factoryNames rms)"
    unfolding factoryNames_def by (rule mset_eq_imp_distinct_iff)
  with createGraph_Inr(1) [OF g]
  have "distinct (concat (map (\<lambda>rm. map imName (instances rm)) ordered))" by simp
  moreover have "concat (map (\<lambda>rm. map imName (instances rm)) ordered) =
      map imName (concat (map instances ordered))"
    by (simp add: map_concat comp_def)
  ultimately have "distinct (map imName (map fst (calls log)))" using cl by simp
  then show "distinct (map (\<lambda>(im, i). imName im) (calls log))"
    by (simp add: case_prod_unfold comp_def)
  from c show "c = foldl (\<lambda>c (im, i). registerInstance c im i)
          \<lparr>modules = ms, instanceByName = [], instanceByType = []\<rparr> (calls log)" .
qed


text \<open>
  C5.  In a construction that returns a container, the name index is the list of the
  factories called, in the order of the calls, each name with what its factory returned:
  every registration has added a key, and none has replaced a binding.  At every call
  the name of the factory is absent from the name index as the calls before it have left
  it.  The entry of a type in the type index is the list of what the factories declared
  with that type have returned, in the order of the calls, and a type with no such
  factory has no entry.  A registration adds a name that is absent at the end of the
  name index, leaves every other name as it is, appends to the entry of its type and
  leaves every other type as it is.  After construction no call of the two lookups
  changes the container.
\<close>

theorem registry_append_only:
  fixes c :: "('m, 't) container"
  assumes "CreateContainer reflectModule asg ms = (log, Inr c)"
  shows "instanceByName c = map (\<lambda>(im, i). (imName im, i)) (calls log) \<and>
    distinct (map fst (instanceByName c)) \<and>
    (\<forall>k<length (calls log).
       imName (fst (calls log ! k)) \<notin>
         fst ` set (instanceByName (foldl (\<lambda>c (im, i). registerInstance c im i)
           \<lparr>modules = ms, instanceByName = [], instanceByType = []\<rparr> (take k (calls log))))) \<and>
    (\<forall>t. map_of (instanceByType c) t =
       (case map snd (filter (\<lambda>(im, i). imTp im = t) (calls log)) of
          [] \<Rightarrow> None | x # xs \<Rightarrow> Some (x # xs))) \<and>
    distinct (map fst (instanceByType c)) \<and>
    (\<forall>(c1 :: ('m, 't) container) im i.
       (imName im \<notin> fst ` set (instanceByName c1) \<longrightarrow>
          instanceByName (registerInstance c1 im i) = instanceByName c1 @ [(imName im, i)]) \<and>
       (\<forall>n. n \<noteq> imName im \<longrightarrow>
          map_of (instanceByName (registerInstance c1 im i)) n = map_of (instanceByName c1) n) \<and>
       map_of (instanceByType (registerInstance c1 im i)) (imTp im) =
         Some ((case map_of (instanceByType c1) (imTp im) of None \<Rightarrow> [] | Some xs \<Rightarrow> xs) @ [i]) \<and>
       (\<forall>t. t \<noteq> imTp im \<longrightarrow>
          map_of (instanceByType (registerInstance c1 im i)) t = map_of (instanceByType c1) t)) \<and>
    (\<forall>qs. snd (snd (queries asg c qs)) = c)"
proof -
  let ?c0 = "\<lparr>modules = ms, instanceByName = [], instanceByType = []\<rparr> :: ('m, 't) container"
  let ?reg = "\<lambda>(c :: ('m, 't) container) (im, i). registerInstance c im i"
  let ?nm = "\<lambda>(im :: 't instanceMethod, i :: 't iface). imName im"
  from CreateContainer_calls [OF assms] have d: "distinct (map ?nm (calls log))"
    and c: "c = foldl ?reg ?c0 (calls log)" by simp_all
  have names: "instanceByName (foldl ?reg ?c0 cs) = map (\<lambda>(im, i). (imName im, i)) cs"
    if "distinct (map ?nm cs)" for cs
    using replay_names [OF that, of ?c0] by simp
  have keys: "map fst (map (\<lambda>(im, i). (imName im, i)) cs) = map ?nm cs"
    for cs :: "('t instanceMethod \<times> 't iface) list"
    by (simp add: case_prod_unfold comp_def)
  have 1: "instanceByName c = map (\<lambda>(im, i). (imName im, i)) (calls log)"
    using names [OF d] c by simp
  have 2: "distinct (map fst (instanceByName c))"
    using d by (simp only: 1 keys)
  have 3: "imName (fst (calls log ! k)) \<notin>
      fst ` set (instanceByName (foldl ?reg ?c0 (take k (calls log))))"
    if k: "k < length (calls log)" for k
  proof -
    from d have "distinct (take k (map ?nm (calls log)))" by (rule distinct_take)
    then have dk: "distinct (map ?nm (take k (calls log)))" by (simp only: take_map)
    from k have "k < length (map ?nm (calls log))" by simp
    with d have "map ?nm (calls log) ! k \<notin> set (take k (map ?nm (calls log)))"
      by (rule distinct_nth_notin_take)
    with k have "imName (fst (calls log ! k)) \<notin> set (map ?nm (take k (calls log)))"
      by (simp add: take_map case_prod_unfold)
    moreover have "fst ` set (instanceByName (foldl ?reg ?c0 (take k (calls log)))) =
        set (map ?nm (take k (calls log)))"
      by (simp only: names [OF dk] keys [symmetric] set_map)
    ultimately show ?thesis by simp
  qed
  have 4: "map_of (instanceByType c) t =
       (case map snd (filter (\<lambda>(im, i). imTp im = t) (calls log)) of
          [] \<Rightarrow> None | x # xs \<Rightarrow> Some (x # xs))" for t
    using replay_type_lookup [of ?c0 "calls log" t] c
    by (cases "filter (\<lambda>(im, i). imTp im = t) (calls log)") simp_all
  have 5: "distinct (map fst (instanceByType c))"
    using replay_type_keys [of ?c0 "calls log"] c by simp
  have 6: "snd (snd (queries asg c qs)) = c" for qs
    by (simp add: queries_eq)
  from 1 2 3 4 5 6 show ?thesis
    by (intro conjI allI impI registerInstance_fresh registerInstance_other
        registerInstance_lookup) simp_all
qed


lemma create_AB_log: "CreateContainer Inr exAsg [moduleA, moduleB] = (logAB, Inr containerAB)"
  by (simp add: create_AB logAB_def)

text \<open>The theorem at the construction from \<open>moduleA\<close> and \<open>moduleB\<close>.\<close>

theorem registry_append_only_witness:
  "CreateContainer Inr exAsg [moduleA, moduleB] = (logAB, Inr containerAB) \<and>
   instanceByName containerAB = map (\<lambda>(im, i). (imName im, i)) (calls logAB) \<and>
   distinct (map fst (instanceByName containerAB)) \<and>
   map_of (instanceByType containerAB) Database =
     (case map snd (filter (\<lambda>(im, i). imTp im = Database) (calls logAB)) of
        [] \<Rightarrow> None | x # xs \<Rightarrow> Some (x # xs))"
proof -
  note run = create_AB_log
  from registry_append_only [OF run] show ?thesis using run by blast
qed

text \<open>
  C9.  In a container that \<open>CreateContainer\<close> has returned, for a type with no entry in
  the exact-type index, \<open>Instance\<close> (whose fallback scans the instances keyed by name)
  returns what a fallback over every instance stored in the type index returns: the same
  instance or the same panic.
\<close>

theorem fallback_by_name_equals_by_type:
  fixes c :: "('m, 't) container"
  assumes "CreateContainer reflectModule asg ms = (log, Inr c)"
    and "map_of (instanceByType c) t = None"
  shows "Instance asg c t =
      ([], (case findAssignableInTypeIndex asg c t of
              Inl e \<Rightarrow> Inl e | Inr found \<Rightarrow> exactlyOne t found), c) \<and>
    (case findAssignableInstances asg c t of
       Inl e \<Rightarrow> Inl e | Inr found \<Rightarrow> exactlyOne t found) =
    (case findAssignableInTypeIndex asg c t of
       Inl e \<Rightarrow> Inl e | Inr found \<Rightarrow> exactlyOne t found)"
proof -
  let ?c0 = "\<lparr>modules = ms, instanceByName = [], instanceByType = []\<rparr> :: ('m, 't) container"
  from CreateContainer_calls [OF assms(1)]
  have d: "distinct (map (\<lambda>(im, i). imName im) (calls log))"
    and c: "c = foldl (\<lambda>c (im, i). registerInstance c im i) ?c0 (calls log)" by simp_all
  from replay_names [OF d, of ?c0] c
  have "instanceByName c = map (\<lambda>(im, i). (imName im, i)) (calls log)" by simp
  then have "map snd (instanceByName c) = map snd (calls log)"
    by (simp add: case_prod_unfold comp_def)
  moreover from replay_type_mset [of ?c0 "calls log"] c
  have "mset (concat (map snd (instanceByType c))) = mset (map snd (calls log))" by simp
  ultimately have "mset (map snd (instanceByName c)) = mset (concat (map snd (instanceByType c)))"
    by simp
  from scan_mset [where asg = asg and t = t, OF this]
  have eq: "(case findAssignableInstances asg c t of
       Inl e \<Rightarrow> Inl e | Inr found \<Rightarrow> exactlyOne t found) =
    (case findAssignableInTypeIndex asg c t of
       Inl e \<Rightarrow> Inl e | Inr found \<Rightarrow> exactlyOne t found)"
    by (simp add: findAssignableInstances_def findAssignableInTypeIndex_def)
  from assms(2) have "findInstanceByType asg c t =
      (case findAssignableInstances asg c t of
         Inl e \<Rightarrow> Inl e | Inr found \<Rightarrow> exactlyOne t found)"
    by (simp add: findInstanceByType_def)
  with eq show ?thesis by (simp add: Instance_def)
qed

text \<open>
  The theorem at the container of \<open>moduleA\<close> and \<open>moduleB\<close> and the type \<open>Store\<close>: both
  scans find the database.
\<close>

theorem fallback_by_name_equals_by_type_witness:
  "CreateContainer Inr exAsg [moduleA, moduleB] = (logAB, Inr containerAB) \<and>
   map_of (instanceByType containerAB) Store = None \<and>
   Instance exAsg containerAB Store =
     ([], (case findAssignableInTypeIndex exAsg containerAB Store of
             Inl e \<Rightarrow> Inl e | Inr found \<Rightarrow> exactlyOne Store found), containerAB) \<and>
   (case findAssignableInTypeIndex exAsg containerAB Store of
      Inl e \<Rightarrow> Inl e | Inr found \<Rightarrow> exactlyOne Store found) = Inr (Value Database 1)"
proof -
  note run = create_AB_log
  have none: "map_of (instanceByType containerAB) Store = None"
    by (simp add: containerAB_def)
  have val: "(case findAssignableInTypeIndex exAsg containerAB Store of
      Inl e \<Rightarrow> Inl e | Inr found \<Rightarrow> exactlyOne Store found) = Inr (Value Database 1)"
    by (simp add: findAssignableInTypeIndex_def containerAB_def exAsg_def exactlyOne_def)
  from fallback_by_name_equals_by_type [OF run none] run none val show ?thesis by blast
qed

subsection \<open>Modules whose slots are satisfiable\<close>



























end
